theory Spec2Isabelle
  imports Main "HOL-Library.Multiset"
begin

section \<open>Text\<close>

text \<open>
  A Python \<^verbatim>\<open>str\<close> is the list of its code points. The text that a request submits and
  the text fields that the handlers clean are of this type. Names that are only compared
  (user names, slugs, HTTP methods, dictionary keys, template names, messages) are
  Isabelle strings. \<open>str_of\<close> is the \<^verbatim>\<open>str\<close> of an ASCII literal.
\<close>

type_synonym str = "nat list"

definition str_of :: "string \<Rightarrow> str" where
  "str_of s = map of_char s"

text \<open>
  The characters that \<^verbatim>\<open>str.strip()\<close> removes, which are those of \<^verbatim>\<open>str.isspace()\<close>:
  U+0009 to U+000D, U+001C to U+0020, U+0085, U+00A0, U+1680, U+2000 to U+200A, U+2028,
  U+2029, U+202F, U+205F and U+3000.
\<close>

definition is_space :: "nat \<Rightarrow> bool" where
  "is_space c =
     ((9 \<le> c \<and> c \<le> 13) \<or> (28 \<le> c \<and> c \<le> 32) \<or> c = 133 \<or> c = 160 \<or> c = 5760
      \<or> (8192 \<le> c \<and> c \<le> 8202) \<or> c = 8232 \<or> c = 8233 \<or> c = 8239 \<or> c = 8287
      \<or> c = 12288)"

definition strip :: "str \<Rightarrow> str" where
  "strip s = rev (dropWhile is_space (rev (dropWhile is_space s)))"

text \<open>\<^verbatim>\<open>request.method.lower()\<close>; the name of a method is ASCII.\<close>

definition lower_char :: "char \<Rightarrow> char" where
  "lower_char c =
     (case map_of (zip ''ABCDEFGHIJKLMNOPQRSTUVWXYZ'' ''abcdefghijklmnopqrstuvwxyz'') c of
        Some l \<Rightarrow> l
      | None \<Rightarrow> c)"

definition lower :: "string \<Rightarrow> string" where
  "lower s = map lower_char s"

section \<open>Data model\<close>

text \<open>
  Modelled from the spec: the entities of \<^verbatim>\<open>blog/models.py\<close>, which the handlers of
  \<^verbatim>\<open>blog/views.py\<close> import, with the fields that the spec names and the handlers read.
  Primary keys are natural numbers, timestamps are integers (points of the time line), a
  foreign key holds the primary key of the row it refers to. The field \<^verbatim>\<open>text\<close> of a post
  and of a comment is \<open>post_text\<close> and \<open>comment_text\<close>, the field \<^verbatim>\<open>is_published\<close> of a
  category is \<open>category_is_published\<close>: a field name is a constant of the theory.
\<close>

record User =
  user_id :: nat
  username :: string
  password :: str

record Category =
  category_id :: nat
  slug :: string
  category_is_published :: bool

record Post =
  post_id :: nat
  title :: str
  post_text :: str
  pub_date :: int
  is_published :: bool
  author :: nat
  category :: nat

record Comment =
  comment_id :: nat
  comment_text :: str
  comment_author :: nat
  comment_post :: nat
  created_at :: int

text \<open>The relational store: one list of rows for each table.\<close>

record store =
  users :: "User list"
  categories :: "Category list"
  posts :: "Post list"
  comments :: "Comment list"

text \<open>
  A request: the viewer (\<open>None\<close> is the anonymous user), the HTTP method and the two
  parameter dictionaries.
\<close>

record request =
  user :: "User option"
  http_method :: string
  GET :: "string \<rightharpoonup> str"
  POST :: "string \<rightharpoonup> str"

text \<open>\<^verbatim>\<open>request.user.is_authenticated\<close> and \<^verbatim>\<open>request.user.username\<close>; the anonymous user has the
  empty user name.\<close>

definition is_authenticated :: "request \<Rightarrow> bool" where
  "is_authenticated req = (user req \<noteq> None)"

definition request_username :: "request \<Rightarrow> string" where
  "request_username req = (case user req of None \<Rightarrow> [] | Some u \<Rightarrow> username u)"

text \<open>\<^verbatim>\<open>obj.author == request.user\<close>: two rows of a table are equal when their primary keys are;
  the anonymous user equals no row.\<close>

definition is_user :: "request \<Rightarrow> nat \<Rightarrow> bool" where
  "is_user req uid = (case user req of None \<Rightarrow> False | Some u \<Rightarrow> user_id u = uid)"

section \<open>Responses\<close>

text \<open>The exceptions that a handler can leave to the framework.\<close>

datatype error = Http404 | MultipleObjectsReturned | PageNotAnInteger | EmptyPage

datatype route = Login | Profile string | PostDetail nat | PasswordChangeDone

text \<open>A form as the templates see it: whether it was bound to submitted data, and its
  validation errors.\<close>

datatype form = Form (is_bound: bool) (errors: "string list")

record 'a Paginator =
  paginator_object_list :: "'a list"
  per_page :: int

record 'a Page =
  object_list :: "'a list"
  number :: int
  paginator :: "'a Paginator"

text \<open>The two messages of \<^verbatim>\<open>HttpResponseForbidden\<close> in \<^verbatim>\<open>views.py\<close>: no right to edit the
  comment, no right to delete the comment.\<close>

datatype forbidden = NoRightToEdit | NoRightToDelete

datatype template_context =
    ProfileContext User "Post Page"
  | IndexContext "Post Page"
  | CategoryContext Category "Post Page"
  | PasswordChangeContext form
  | PostFormContext form
  | PostDeleteContext Post bool
  | PostDetailContext Post form "Comment list"
  | CommentEditContext form Comment bool
  | CommentDeleteContext Comment bool

text \<open>A response: a rendered template, a redirect, the forbidden response, and the two
  answers of a class-based view to a method it has no handler for and to \<^verbatim>\<open>OPTIONS\<close>, with
  the list of the allowed methods.\<close>

datatype response =
    Render string template_context
  | Redirect route
  | HttpResponseForbidden forbidden
  | HttpResponseNotAllowed "string list"
  | OptionsResponse "string list"

type_synonym result = "error + response"

section \<open>Page numbers\<close>

text \<open>
  The values a page number can have: \<^verbatim>\<open>request.GET.get('page')\<close> is \<^verbatim>\<open>None\<close> or a string, and
  the paginator itself passes integers. \<open>py_int\<close> is \<^verbatim>\<open>int(number)\<close>, with \<open>None\<close> for
  \<^verbatim>\<open>TypeError\<close> and \<^verbatim>\<open>ValueError\<close>. What \<^verbatim>\<open>int\<close> makes of a string is the interpreter's (its
  tables of digits and its limit on the number of digits): it is the parameter \<open>int_str\<close>
  of the paginator and of the listing handlers.
\<close>

datatype py_value = PyNone | PyStr str | PyInt int

definition query_get :: "(string \<rightharpoonup> str) \<Rightarrow> string \<Rightarrow> py_value" where
  "query_get q k = (case q k of None \<Rightarrow> PyNone | Some s \<Rightarrow> PyStr s)"

fun py_int :: "(str \<Rightarrow> int option) \<Rightarrow> py_value \<Rightarrow> int option" where
  "py_int int_str PyNone = None"
| "py_int int_str (PyStr s) = int_str s"
| "py_int int_str (PyInt n) = Some n"

section \<open>The paginator\<close>

text \<open>\<^verbatim>\<open>django.core.paginator.Paginator\<close> with its defaults (no orphans, an empty first page
  allowed), as \<^verbatim>\<open>Paginator(posts, LIMIT_POSTS)\<close> builds it.\<close>

definition LIMIT_POSTS :: int where
  "LIMIT_POSTS = 10"

definition Paginator :: "'a list \<Rightarrow> int \<Rightarrow> 'a Paginator" where
  "Paginator xs n = \<lparr>paginator_object_list = xs, per_page = n\<rparr>"

definition count :: "'a Paginator \<Rightarrow> int" where
  "count p = int (length (paginator_object_list p))"

definition num_pages :: "'a Paginator \<Rightarrow> int" where
  "num_pages p = (let hits = max 1 (count p) in (hits + per_page p - 1) div per_page p)"

definition validate_number ::
  "(str \<Rightarrow> int option) \<Rightarrow> 'a Paginator \<Rightarrow> py_value \<Rightarrow> error + int" where
  "validate_number int_str p v =
     (case py_int int_str v of
        None \<Rightarrow> Inl PageNotAnInteger
      | Some n \<Rightarrow>
          if n < 1 then Inl EmptyPage
          else if n > num_pages p then Inl EmptyPage
          else Inr n)"

definition page :: "(str \<Rightarrow> int option) \<Rightarrow> 'a Paginator \<Rightarrow> py_value \<Rightarrow> error + 'a Page" where
  "page int_str p v =
     (case validate_number int_str p v of
        Inl e \<Rightarrow> Inl e
      | Inr n \<Rightarrow>
          let bottom = (n - 1) * per_page p;
              top = bottom + per_page p;
              top = (if top \<ge> count p then count p else top)
          in Inr \<lparr>object_list = drop (nat bottom) (take (nat top) (paginator_object_list p)),
                  number = n, paginator = p\<rparr>)"

definition get_page ::
  "(str \<Rightarrow> int option) \<Rightarrow> 'a Paginator \<Rightarrow> py_value \<Rightarrow> error + 'a Page" where
  "get_page int_str p v =
     (case validate_number int_str p v of
        Inl PageNotAnInteger \<Rightarrow> page int_str p (PyInt 1)
      | Inl EmptyPage \<Rightarrow> page int_str p (PyInt (num_pages p))
      | Inl e \<Rightarrow> Inl e
      | Inr n \<Rightarrow> page int_str p (PyInt n))"

section \<open>Queries\<close>

text \<open>\<^verbatim>\<open>get_object_or_404\<close>: the one row that satisfies the lookup; \<^verbatim>\<open>Http404\<close> when there is
  none, \<^verbatim>\<open>MultipleObjectsReturned\<close> when there are several.\<close>

definition get_object_or_404 :: "'a list \<Rightarrow> ('a \<Rightarrow> bool) \<Rightarrow> error + 'a" where
  "get_object_or_404 rows P =
     (case filter P rows of
        [] \<Rightarrow> Inl Http404
      | [x] \<Rightarrow> Inr x
      | _ \<Rightarrow> Inl MultipleObjectsReturned)"

text \<open>The lookup \<^verbatim>\<open>category__is_published=True\<close> joins the category of the post, and
  \<^verbatim>\<open>obj.category.is_published\<close> reads the same row: the category of a post is a row of the
  store (the database checks the foreign key).\<close>

definition category__is_published :: "store \<Rightarrow> Post \<Rightarrow> bool" where
  "category__is_published st p =
     list_ex (\<lambda>c. category_id c = category p \<and> category_is_published c) (categories st)"

text \<open>\<^verbatim>\<open>order_by('-pub_date')\<close>.\<close>

definition order_by_pub_date_desc :: "Post list \<Rightarrow> Post list" where
  "order_by_pub_date_desc ps = sort_key (\<lambda>p. - pub_date p) ps"

section \<open>Listing handlers\<close>

text \<open>Each handler takes the store, the current time (\<^verbatim>\<open>timezone.now()\<close>) and the request.\<close>

definition index_posts :: "store \<Rightarrow> int \<Rightarrow> Post list" where
  "index_posts st current_time =
     order_by_pub_date_desc
       (filter (\<lambda>p. pub_date p \<le> current_time \<and> is_published p \<and> category__is_published st p)
          (posts st))"

definition index :: "(str \<Rightarrow> int option) \<Rightarrow> store \<Rightarrow> int \<Rightarrow> request \<Rightarrow> result" where
  "index int_str st current_time req =
     (let paginator = Paginator (index_posts st current_time) LIMIT_POSTS;
          page_number = query_get (GET req) ''page''
      in case get_page int_str paginator page_number of
           Inl e \<Rightarrow> Inl e
         | Inr page_obj \<Rightarrow> Inr (Render ''blog/index.html'' (IndexContext page_obj)))"

definition category_post_list :: "store \<Rightarrow> int \<Rightarrow> Category \<Rightarrow> Post list" where
  "category_post_list st current_time c =
     order_by_pub_date_desc
       (filter (\<lambda>p. is_published p \<and> pub_date p \<le> current_time)
          (filter (\<lambda>p. category p = category_id c) (posts st)))"

definition category_posts ::
  "(str \<Rightarrow> int option) \<Rightarrow> store \<Rightarrow> int \<Rightarrow> request \<Rightarrow> string \<Rightarrow> result" where
  "category_posts int_str st current_time req category_slug =
     (case get_object_or_404 (categories st)
             (\<lambda>c. slug c = category_slug \<and> category_is_published c) of
        Inl e \<Rightarrow> Inl e
      | Inr c \<Rightarrow>
          let paginator = Paginator (category_post_list st current_time c) LIMIT_POSTS;
              page_number = query_get (GET req) ''page''
          in (case get_page int_str paginator page_number of
                Inl e \<Rightarrow> Inl e
              | Inr page_obj \<Rightarrow>
                  Inr (Render ''blog/category.html'' (CategoryContext c page_obj))))"

definition profile_posts :: "store \<Rightarrow> int \<Rightarrow> request \<Rightarrow> string \<Rightarrow> User \<Rightarrow> Post list" where
  "profile_posts st current_time req uname u =
     (let ps = filter (\<lambda>p. author p = user_id u) (posts st);
          ps = (if request_username req \<noteq> uname
                then filter (\<lambda>p. is_published p \<and> category__is_published st p
                                  \<and> pub_date p \<le> current_time) ps
                else ps)
      in order_by_pub_date_desc ps)"

definition profile_view ::
  "(str \<Rightarrow> int option) \<Rightarrow> store \<Rightarrow> int \<Rightarrow> request \<Rightarrow> string \<Rightarrow> result" where
  "profile_view int_str st current_time req uname =
     (case get_object_or_404 (users st) (\<lambda>u. username u = uname) of
        Inl e \<Rightarrow> Inl e
      | Inr u \<Rightarrow>
          let paginator = Paginator (profile_posts st current_time req uname u) LIMIT_POSTS;
              page_number = query_get (GET req) ''page''
          in (case get_page int_str paginator page_number of
                Inl e \<Rightarrow> Inl e
              | Inr page_obj \<Rightarrow>
                  Inr (Render ''blog/profile.html'' (ProfileContext u page_obj))))"

section \<open>Forms\<close>

text \<open>
  \<^verbatim>\<open>forms.CharField\<close> with its defaults (\<^verbatim>\<open>required=True\<close>, \<^verbatim>\<open>strip=True\<close>): the submitted value
  is stripped of surrounding whitespace, a missing or empty value is an error, and so is a
  value with a NUL character. The result is the list of errors or the cleaned value.
\<close>

definition CharField_clean :: "str option \<Rightarrow> string list + str" where
  "CharField_clean v =
     (let val = (case v of None \<Rightarrow> [] | Some s \<Rightarrow> strip s)
      in if val = [] then Inl [''This field is required.'']
         else if 0 \<in> set val then Inl [''Null characters are not allowed.'']
         else Inr val)"







text \<open>
  \<^verbatim>\<open>PostForm\<close> is the model form of the post without the field \<^verbatim>\<open>author\<close>
  (\<^verbatim>\<open>exclude = ['author']\<close>), and \<^verbatim>\<open>CommentForm\<close> the model form of the comment with the
  one field \<^verbatim>\<open>text\<close>. How a field is cleaned is declared with the models: the cleaning of
  the two forms is a parameter of the handlers that use them, \<open>post_form\<close> from the store
  and the submitted dictionary to the errors or the cleaned fields of a post, which have
  no author, and \<open>comment_form\<close> from the submitted dictionary to the errors or the
  cleaned text.
\<close>

record PostForm_cleaned_data =
  cleaned_title :: str
  cleaned_text :: str
  cleaned_pub_date :: int
  cleaned_is_published :: bool
  cleaned_category :: nat

type_synonym PostForm = "store \<Rightarrow> (string \<rightharpoonup> str) \<Rightarrow> string list + PostForm_cleaned_data"

type_synonym CommentForm = "(string \<rightharpoonup> str) \<Rightarrow> string list + str"

section \<open>Writing to the store\<close>

definition Post_create :: "store \<Rightarrow> Post \<Rightarrow> store" where
  "Post_create st p = st\<lparr>posts := posts st @ [p]\<rparr>"

text \<open>\<^verbatim>\<open>Model.delete()\<close> on a post. What becomes of the rows that refer to a deleted row is
  declared with the models (\<^verbatim>\<open>on_delete\<close>); the comments of a post are taken to cascade: they
  are deleted with the post.\<close>

definition Post_delete :: "store \<Rightarrow> Post \<Rightarrow> store" where
  "Post_delete st p =
     st\<lparr>posts := filter (\<lambda>q. post_id q \<noteq> post_id p) (posts st),
        comments := filter (\<lambda>c. comment_post c \<noteq> post_id p) (comments st)\<rparr>"

definition Comment_save :: "store \<Rightarrow> Comment \<Rightarrow> store" where
  "Comment_save st c =
     st\<lparr>comments := map (\<lambda>r. if comment_id r = comment_id c then c else r) (comments st)\<rparr>"

definition Comment_delete :: "store \<Rightarrow> Comment \<Rightarrow> store" where
  "Comment_delete st c =
     st\<lparr>comments := filter (\<lambda>r. comment_id r \<noteq> comment_id c) (comments st)\<rparr>"


section \<open>Sessions\<close>

text \<open>
  The session of the viewer holds the primary key of the logged-in user and a hash of
  that user's password. The password hasher and the keyed hash are the framework's; the
  model keeps the password itself in the place of either hash.
\<close>

record session =
  auth_user_id :: "nat option"
  auth_user_hash :: str





section \<open>Account handlers\<close>


section \<open>Class-based views\<close>

text \<open>
  \<^verbatim>\<open>View.dispatch\<close>: the handler with the lower-case name of the method, when that is one
  of \<^verbatim>\<open>http_method_names\<close> and the view has such a handler, and \<^verbatim>\<open>http_method_not_allowed\<close>
  otherwise. The handlers are given as a list of names and values; \<^verbatim>\<open>head\<close> is \<^verbatim>\<open>get\<close>,
  and \<^verbatim>\<open>put\<close> of a form view is \<^verbatim>\<open>post\<close>.
\<close>

definition http_method_names :: "string list" where
  "http_method_names =
     [''get'', ''post'', ''put'', ''patch'', ''delete'', ''head'', ''options'', ''trace'']"

definition View_dispatch :: "(string \<times> 'h) list \<Rightarrow> 'h \<Rightarrow> request \<Rightarrow> 'h" where
  "View_dispatch handlers http_method_not_allowed req =
     (if lower (http_method req) \<in> set http_method_names
      then (case map_of handlers (lower (http_method req)) of
              Some h \<Rightarrow> h
            | None \<Rightarrow> http_method_not_allowed)
      else http_method_not_allowed)"

section \<open>Post handlers\<close>

text \<open>\<^verbatim>\<open>PostDetailView.get_object\<close>, then the page with the comments of the post and an empty
  comment form. The view answers \<^verbatim>\<open>GET\<close>, \<^verbatim>\<open>HEAD\<close> and \<^verbatim>\<open>OPTIONS\<close>.\<close>

definition PostDetailView_get_object :: "store \<Rightarrow> request \<Rightarrow> nat \<Rightarrow> error + Post" where
  "PostDetailView_get_object st req pid =
     (case get_object_or_404 (posts st) (\<lambda>p. post_id p = pid) of
        Inl e \<Rightarrow> Inl e
      | Inr obj \<Rightarrow>
          if \<not> is_user req (author obj)
             \<and> (\<not> is_published obj \<or> \<not> category__is_published st obj)
          then Inl Http404
          else Inr obj)"

definition PostDetailView_get :: "store \<Rightarrow> request \<Rightarrow> nat \<Rightarrow> result" where
  "PostDetailView_get st req pid =
     (case PostDetailView_get_object st req pid of
        Inl e \<Rightarrow> Inl e
      | Inr obj \<Rightarrow>
          Inr (Render ''blog/detail.html''
                 (PostDetailContext obj (Form False [])
                    (filter (\<lambda>c. comment_post c = post_id obj) (comments st)))))"

definition PostDetailView :: "store \<Rightarrow> request \<Rightarrow> nat \<Rightarrow> result" where
  "PostDetailView st req pid =
     View_dispatch
       [(''get'', PostDetailView_get st req pid),
        (''head'', PostDetailView_get st req pid),
        (''options'', Inr (OptionsResponse [''GET'', ''HEAD'', ''OPTIONS'']))]
       (Inr (HttpResponseNotAllowed [''GET'', ''HEAD'', ''OPTIONS'']))
       req"

text \<open>\<^verbatim>\<open>PostCreateView\<close>: the login check, then the form page for \<^verbatim>\<open>GET\<close> and \<^verbatim>\<open>HEAD\<close> and the
  submission for \<^verbatim>\<open>POST\<close> and \<^verbatim>\<open>PUT\<close>. \<open>form_valid\<close> sets the author of the instance to
  the viewer and saves it; the primary key that the database gives the new row is the
  parameter \<open>new_pk\<close>.\<close>

definition PostCreateView_form_valid ::
  "nat \<Rightarrow> store \<Rightarrow> request \<Rightarrow> User \<Rightarrow> PostForm_cleaned_data \<Rightarrow> result \<times> store" where
  "PostCreateView_form_valid new_pk st req u cd =
     (let instance = \<lparr>post_id = new_pk,
                       title = cleaned_title cd, post_text = cleaned_text cd,
                       pub_date = cleaned_pub_date cd,
                       is_published = cleaned_is_published cd,
                       author = user_id u, category = cleaned_category cd\<rparr>
      in (Inr (Redirect (Profile (request_username req))), Post_create st instance))"

definition PostCreateView_get :: "store \<Rightarrow> result \<times> store" where
  "PostCreateView_get st = (Inr (Render ''blog/create.html'' (PostFormContext (Form False []))), st)"

text \<open>The form is bound to the submitted dictionary when the method is \<^verbatim>\<open>POST\<close> or \<^verbatim>\<open>PUT\<close>
  (\<^verbatim>\<open>get_form_kwargs\<close>); a form that is not bound is not valid.\<close>

definition PostCreateView_post ::
  "PostForm \<Rightarrow> nat \<Rightarrow> store \<Rightarrow> request \<Rightarrow> User \<Rightarrow> result \<times> store" where
  "PostCreateView_post post_form new_pk st req u =
     (if http_method req = ''POST'' \<or> http_method req = ''PUT'' then
        (case post_form st (POST req) of
           Inr cd \<Rightarrow> PostCreateView_form_valid new_pk st req u cd
         | Inl es \<Rightarrow> (Inr (Render ''blog/create.html'' (PostFormContext (Form True es))), st))
      else (Inr (Render ''blog/create.html'' (PostFormContext (Form False []))), st))"

definition PostCreateView :: "PostForm \<Rightarrow> nat \<Rightarrow> store \<Rightarrow> request \<Rightarrow> result \<times> store" where
  "PostCreateView post_form new_pk st req =
     (case user req of
        None \<Rightarrow> (Inr (Redirect Login), st)
      | Some u \<Rightarrow>
          View_dispatch
            [(''get'', PostCreateView_get st),
             (''post'', PostCreateView_post post_form new_pk st req u),
             (''put'', PostCreateView_post post_form new_pk st req u),
             (''head'', PostCreateView_get st),
             (''options'',
              (Inr (OptionsResponse [''GET'', ''POST'', ''PUT'', ''HEAD'', ''OPTIONS'']), st))]
            (Inr (HttpResponseNotAllowed [''GET'', ''POST'', ''PUT'', ''HEAD'', ''OPTIONS'']), st)
            req)"

text \<open>\<^verbatim>\<open>PostUpdateView.dispatch\<close>. What the \<^verbatim>\<open>dispatch\<close> of the base classes does for the author
  (the login check, the form page, the update) is the parameter \<open>super_dispatch\<close>.\<close>

definition PostUpdateView_dispatch ::
  "(store \<Rightarrow> request \<Rightarrow> nat \<Rightarrow> result \<times> store) \<Rightarrow> store \<Rightarrow> request \<Rightarrow> nat \<Rightarrow> result \<times> store" where
  "PostUpdateView_dispatch super_dispatch st req pid =
     (case get_object_or_404 (posts st) (\<lambda>p. post_id p = pid) of
        Inl e \<Rightarrow> (Inl e, st)
      | Inr obj \<Rightarrow>
          if \<not> is_user req (author obj) then (Inr (Redirect (PostDetail pid)), st)
          else super_dispatch st req pid)"

definition delete_post :: "store \<Rightarrow> request \<Rightarrow> nat \<Rightarrow> result \<times> store" where
  "delete_post st req pid =
     (if \<not> is_authenticated req then (Inr (Redirect Login), st)
      else case get_object_or_404 (posts st)
                  (\<lambda>p. post_id p = pid \<and> is_user req (author p)) of
             Inl e \<Rightarrow> (Inl e, st)
           | Inr obj \<Rightarrow>
               if http_method req \<noteq> ''POST''
               then (Inr (Render ''blog/create.html'' (PostDeleteContext obj True)), st)
               else (Inr (Redirect (Profile (request_username req))), Post_delete st obj))"

section \<open>Comment handlers\<close>

definition edit_comment :: "CommentForm \<Rightarrow> store \<Rightarrow> request \<Rightarrow> nat \<Rightarrow> nat \<Rightarrow> result \<times> store" where
  "edit_comment comment_form st req pid cid =
     (if \<not> is_authenticated req then (Inr (Redirect Login), st)
      else case get_object_or_404 (comments st) (\<lambda>c. comment_id c = cid) of
             Inl e \<Rightarrow> (Inl e, st)
           | Inr comment \<Rightarrow>
               if \<not> is_user req (comment_author comment)
               then (Inr (HttpResponseForbidden NoRightToEdit), st)
               else if http_method req = ''POST'' then
                 (case comment_form (POST req) of
                    Inr new_text \<Rightarrow>
                      (Inr (Redirect (PostDetail pid)),
                       Comment_save st (comment\<lparr>comment_text := new_text\<rparr>))
                  | Inl es \<Rightarrow>
                      (Inr (Render ''blog/comment.html''
                              (CommentEditContext (Form True es) comment True)), st))
               else (Inr (Render ''blog/comment.html''
                            (CommentEditContext (Form False []) comment True)), st))"

definition delete_comment :: "store \<Rightarrow> request \<Rightarrow> nat \<Rightarrow> nat \<Rightarrow> result \<times> store" where
  "delete_comment st req pid cid =
     (if \<not> is_authenticated req then (Inr (Redirect Login), st)
      else case get_object_or_404 (comments st) (\<lambda>c. comment_id c = cid) of
             Inl e \<Rightarrow> (Inl e, st)
           | Inr comment \<Rightarrow>
               if \<not> is_user req (comment_author comment)
               then (Inr (HttpResponseForbidden NoRightToDelete), st)
               else if http_method req = ''POST''
               then (Inr (Redirect (PostDetail pid)), Comment_delete st comment)
               else (Inr (Render ''blog/comment.html'' (CommentDeleteContext comment True)),
                     st))"

section \<open>Properties of a rendered page\<close>

text \<open>
  The number of the page that \<open>get_page\<close> serves: the first page when the value is no
  integer, the last page when the integer is below one or above the number of pages, and
  the page of the integer otherwise.
\<close>

definition served_number :: "(str \<Rightarrow> int option) \<Rightarrow> 'a Paginator \<Rightarrow> py_value \<Rightarrow> int" where
  "served_number int_str p v =
     (case py_int int_str v of
        None \<Rightarrow> 1
      | Some k \<Rightarrow> if 1 \<le> k \<and> k \<le> num_pages p then k else num_pages p)"

text \<open>A valid page of a listing: at most ten posts, and a page number between one and the
  number of pages of its paginator, whose page size is ten.\<close>

definition page_ok :: "'a Page \<Rightarrow> bool" where
  "page_ok pg = (length (object_list pg) \<le> 10 \<and> 1 \<le> number pg
                 \<and> number pg \<le> num_pages (paginator pg) \<and> per_page (paginator pg) = 10)"

text \<open>The page that a listing handler hands to its template.\<close>

definition result_page :: "result \<Rightarrow> Post Page option" where
  "result_page r =
     (case r of
        Inr (Render _ (IndexContext pg)) \<Rightarrow> Some pg
      | Inr (Render _ (CategoryContext _ pg)) \<Rightarrow> Some pg
      | Inr (Render _ (ProfileContext _ pg)) \<Rightarrow> Some pg
      | _ \<Rightarrow> None)"

section \<open>Example data\<close>

text \<open>A small store: two users, a published and a hidden category, four posts and a
  comment. The current time of the examples is 150.\<close>

definition ex_alice :: User where
  "ex_alice = \<lparr>user_id = 1, username = ''alice'', password = str_of ''old-secret''\<rparr>"

definition ex_bob :: User where
  "ex_bob = \<lparr>user_id = 2, username = ''bob'', password = str_of ''bobs-secret''\<rparr>"

definition ex_news :: Category where
  "ex_news = \<lparr>category_id = 1, slug = ''news'', category_is_published = True\<rparr>"

definition ex_hidden :: Category where
  "ex_hidden = \<lparr>category_id = 2, slug = ''hidden'', category_is_published = False\<rparr>"

definition ex_post :: "nat \<Rightarrow> int \<Rightarrow> bool \<Rightarrow> nat \<Rightarrow> nat \<Rightarrow> Post" where
  "ex_post pk d pub a c =
     \<lparr>post_id = pk, title = str_of ''a title'', post_text = str_of ''a text'', pub_date = d,
      is_published = pub, author = a, category = c\<rparr>"

definition ex_comment :: Comment where
  "ex_comment = \<lparr>comment_id = 1, comment_text = str_of ''hello'', comment_author = 2,
                  comment_post = 1, created_at = 130\<rparr>"

definition ex_store :: store where
  "ex_store =
     \<lparr>users = [ex_alice, ex_bob],
      categories = [ex_news, ex_hidden],
      posts = [ex_post 1 100 True 1 1, ex_post 2 1000 True 1 1,
               ex_post 3 50 False 1 1, ex_post 4 120 True 2 1],
      comments = [ex_comment]\<rparr>"

definition ex_request :: "User option \<Rightarrow> string \<Rightarrow> (string \<rightharpoonup> str) \<Rightarrow> request" where
  "ex_request u m d = \<lparr>user = u, http_method = m, GET = d, POST = d\<rparr>"

definition ex_session :: session where
  "ex_session = \<lparr>auth_user_id = Some 1, auth_user_hash = str_of ''old-secret''\<rparr>"

text \<open>The same store with twelve posts of one author, for the second page.\<close>

definition ex_many_store :: store where
  "ex_many_store =
     ex_store\<lparr>posts := map (\<lambda>n. ex_post n (int n) True 1 1)
                            [1, 2, 3, 4, 5, 6, 7, 8, 9, 10, 11, 12]\<rparr>"

text \<open>The value of \<^verbatim>\<open>int\<close> at the page values of the examples: \<^verbatim>\<open>-3\<close> and \<^verbatim>\<open>999\<close> are numbers,
  \<^verbatim>\<open>abc\<close> is none and has no entry.\<close>

definition ex_page_numbers :: "str \<Rightarrow> int option" where
  "ex_page_numbers = [str_of ''-3'' \<mapsto> - 3, str_of ''999'' \<mapsto> 999]"

text \<open>A post form for the examples: it takes the title and the text as they are submitted,
  requires both, and gives every post the date 140, the published flag and the first
  category.\<close>

definition ex_post_form :: PostForm where
  "ex_post_form st data =
     (case (data ''title'', data ''text'') of
        (Some t, Some x) \<Rightarrow>
          Inr \<lparr>cleaned_title = t, cleaned_text = x, cleaned_pub_date = 140,
               cleaned_is_published = True, cleaned_category = 1\<rparr>
      | _ \<Rightarrow> Inl [''This field is required.''])"

text \<open>A post submitted by the first user, with the second user named as its author.\<close>

definition ex_create_request :: request where
  "ex_create_request =
     ex_request (Some ex_alice) ''POST''
       [''title'' \<mapsto> str_of ''New post'', ''text'' \<mapsto> str_of ''Body'',
        ''author'' \<mapsto> str_of ''2'']"




section \<open>The paginator always returns a page\<close>

lemma num_pages_ge_1:
  assumes "0 < per_page p"
  shows "1 \<le> num_pages p"
proof -
  have "per_page p \<le> max 1 (count p) + per_page p - 1" by simp
  with assms have "0 < (max 1 (count p) + per_page p - 1) div per_page p"
    by (simp only: pos_imp_zdiv_pos_iff)
  then show ?thesis by (simp add: num_pages_def Let_def)
qed

lemma page_PyInt:
  assumes "1 \<le> n" and "n \<le> num_pages p"
  shows "page int_str p (PyInt n) =
     Inr \<lparr>object_list =
            drop (nat ((n - 1) * per_page p)) (take (nat (n * per_page p)) (paginator_object_list p)),
          number = n, paginator = p\<rparr>"
proof -
  have a: "(n - 1) * per_page p + per_page p = n * per_page p" by (simp add: algebra_simps)
  have b: "count p \<le> n * per_page p \<Longrightarrow>
           take (nat (count p)) (paginator_object_list p)
             = take (nat (n * per_page p)) (paginator_object_list p)"
    by (simp add: count_def)
  from assms show ?thesis
    by (simp add: page_def validate_number_def Let_def a b)
qed

lemma served_number_range:
  assumes "0 < per_page p"
  shows "1 \<le> served_number int_str p v \<and> served_number int_str p v \<le> num_pages p"
  using num_pages_ge_1 [OF assms]
  by (simp add: served_number_def split: option.splits)

lemma get_page_served:
  "get_page int_str p v = page int_str p (PyInt (served_number int_str p v))"
proof (cases "py_int int_str v")
  case None
  then show ?thesis by (simp add: get_page_def validate_number_def served_number_def)
next
  case (Some k)
  then show ?thesis
    by (simp add: get_page_def validate_number_def served_number_def)
qed

lemma get_page_eq:
  assumes "0 < per_page p"
  shows "get_page int_str p v =
     Inr \<lparr>object_list =
            drop (nat ((served_number int_str p v - 1) * per_page p))
              (take (nat (served_number int_str p v * per_page p)) (paginator_object_list p)),
          number = served_number int_str p v, paginator = p\<rparr>"
  using served_number_range [OF assms, of int_str v]
  by (simp add: get_page_served page_PyInt)

lemma get_page_Paginator:
  fixes xs :: "'a list" and int_str :: "str \<Rightarrow> int option" and v :: py_value
  defines "p \<equiv> Paginator xs LIMIT_POSTS"
  defines "n \<equiv> served_number int_str p v"
  shows "get_page int_str p v =
           Inr \<lparr>object_list = drop (nat ((n - 1) * 10)) (take (nat (n * 10)) xs),
                 number = n, paginator = p\<rparr>"
    and "1 \<le> n" and "n \<le> num_pages p"
    and "length (drop (nat ((n - 1) * 10)) (take (nat (n * 10)) xs)) \<le> 10"
proof -
  have pp: "per_page p = 10" "paginator_object_list p = xs"
    by (simp_all add: p_def Paginator_def LIMIT_POSTS_def)
  then have pos: "0 < per_page p" by simp
  from get_page_eq [OF pos, of int_str v]
  show "get_page int_str p v =
           Inr \<lparr>object_list = drop (nat ((n - 1) * 10)) (take (nat (n * 10)) xs),
                 number = n, paginator = p\<rparr>"
    by (simp add: pp n_def)
  from served_number_range [OF pos, of int_str v]
  show n: "1 \<le> n" and "n \<le> num_pages p" by (simp_all add: n_def)
  from n show "length (drop (nat ((n - 1) * 10)) (take (nat (n * 10)) xs)) \<le> 10"
    by simp
qed

lemma sorted_order_by_pub_date_desc:
  "sorted_wrt (\<lambda>p q. pub_date q \<le> pub_date p) (order_by_pub_date_desc ps)"
proof -
  have "sorted (map (\<lambda>p. - pub_date p) (order_by_pub_date_desc ps))"
    unfolding order_by_pub_date_desc_def by (rule sorted_sort_key)
  then show ?thesis by (simp add: sorted_map)
qed

lemma set_order_by_pub_date_desc [simp]: "set (order_by_pub_date_desc ps) = set ps"
  by (simp add: order_by_pub_date_desc_def)

lemma mset_order_by_pub_date_desc [simp]: "mset (order_by_pub_date_desc ps) = mset ps"
  by (simp add: order_by_pub_date_desc_def)

lemma slice_subset: "set (drop a (take b xs)) \<subseteq> set xs"
  by (meson order_trans set_drop_subset set_take_subset)

lemma slice_sorted_wrt: "sorted_wrt R xs \<Longrightarrow> sorted_wrt R (drop a (take b xs))"
  by (simp add: sorted_wrt_drop sorted_wrt_take)

section \<open>Evaluation\<close>

lemmas ex_defs =
  ex_alice_def ex_bob_def ex_news_def ex_hidden_def ex_post_def ex_comment_def ex_store_def
  ex_request_def ex_session_def ex_many_store_def ex_page_numbers_def str_of_def

lemmas eval_defs =
  index_def index_posts_def category_posts_def category_post_list_def profile_view_def
  profile_posts_def order_by_pub_date_desc_def category__is_published_def get_page_def
  validate_number_def page_def num_pages_def count_def Paginator_def LIMIT_POSTS_def
  query_get_def get_object_or_404_def request_username_def is_user_def is_authenticated_def
  Let_def

section \<open>The index listing\<close>

text \<open>
  Claim C2. For every store, time and request, the index handler renders a page, every
  post of the page is published, belongs to a published category and has a publish
  timestamp that is not after the current time, and the posts of the page are in
  descending order of their publish timestamps. The viewer plays no part.
\<close>

theorem index_public_posts_only:
  "\<exists>page_obj. index int_str st current_time req
                 = Inr (Render ''blog/index.html'' (IndexContext page_obj))
     \<and> (\<forall>p \<in> set (object_list page_obj).
           is_published p \<and> category__is_published st p \<and> pub_date p \<le> current_time)
     \<and> sorted_wrt (\<lambda>p q. pub_date q \<le> pub_date p) (object_list page_obj)"
proof -
  let ?xs = "index_posts st current_time"
  let ?v = "query_get (GET req) ''page''"
  let ?n = "served_number int_str (Paginator ?xs LIMIT_POSTS) ?v"
  let ?pg = "\<lparr>object_list = drop (nat ((?n - 1) * 10)) (take (nat (?n * 10)) ?xs),
              number = ?n, paginator = Paginator ?xs LIMIT_POSTS\<rparr>"
  have g: "get_page int_str (Paginator ?xs LIMIT_POSTS) ?v = Inr ?pg"
    by (rule get_page_Paginator(1))
  have r: "index int_str st current_time req = Inr (Render ''blog/index.html'' (IndexContext ?pg))"
    by (simp add: index_def Let_def g)
  have "set (object_list ?pg) \<subseteq> set ?xs" by (simp add: slice_subset)
  then have v: "\<forall>p \<in> set (object_list ?pg).
           is_published p \<and> category__is_published st p \<and> pub_date p \<le> current_time"
    by (auto simp: index_posts_def)
  have s: "sorted_wrt (\<lambda>p q. pub_date q \<le> pub_date p) (object_list ?pg)"
    by (simp add: index_posts_def slice_sorted_wrt sorted_order_by_pub_date_desc)
  from r v s show ?thesis by (intro exI [of _ ?pg] conjI)
qed

text \<open>In the example store at time 150, nobody logged in: the page holds the two public
  posts, the later one first.\<close>

theorem index_public_posts_only_witness:
  "\<exists>page_obj. index ex_page_numbers ex_store 150 (ex_request None ''GET'' Map.empty)
        = Inr (Render ''blog/index.html'' (IndexContext page_obj))
     \<and> object_list page_obj = [ex_post 4 120 True 2 1, ex_post 1 100 True 1 1]
     \<and> is_published (ex_post 1 100 True 1 1)
     \<and> category__is_published ex_store (ex_post 1 100 True 1 1)
     \<and> pub_date (ex_post 1 100 True 1 1) \<le> 150"
proof -
  let ?req = "ex_request None ''GET'' Map.empty"
  have c: "index ex_page_numbers ex_store 150 ?req = Inr (Render ''blog/index.html'' (IndexContext
      \<lparr>object_list = [ex_post 4 120 True 2 1, ex_post 1 100 True 1 1], number = 1,
       paginator = Paginator [ex_post 4 120 True 2 1, ex_post 1 100 True 1 1] 10\<rparr>))"
    by (simp add: eval_defs ex_defs)
  from index_public_posts_only [of ex_page_numbers ex_store 150 ?req] obtain pg
    where r: "index ex_page_numbers ex_store 150 ?req
                = Inr (Render ''blog/index.html'' (IndexContext pg))"
      and v: "\<forall>p \<in> set (object_list pg).
                is_published p \<and> category__is_published ex_store p \<and> pub_date p \<le> 150"
    by blast
  from r have "pg = \<lparr>object_list = [ex_post 4 120 True 2 1, ex_post 1 100 True 1 1], number = 1,
       paginator = Paginator [ex_post 4 120 True 2 1, ex_post 1 100 True 1 1] 10\<rparr>"
    unfolding c by simp
  then have o: "object_list pg = [ex_post 4 120 True 2 1, ex_post 1 100 True 1 1]"
    by simp
  then have "ex_post 1 100 True 1 1 \<in> set (object_list pg)" by simp
  with v have "is_published (ex_post 1 100 True 1 1)
     \<and> category__is_published ex_store (ex_post 1 100 True 1 1)
     \<and> pub_date (ex_post 1 100 True 1 1) \<le> 150" by (rule bspec)
  with r o show ?thesis by (intro exI [of _ pg]) simp
qed

section \<open>The profile listing\<close>

lemma get_object_or_404_Inr:
  "get_object_or_404 rows P = Inr x \<longleftrightarrow> filter P rows = [x]"
  by (simp add: get_object_or_404_def split: list.splits)

lemma get_object_or_404_unique:
  assumes "get_object_or_404 rows P = Inr x"
  shows "x \<in> set rows" and "P x" and "\<And>y. y \<in> set rows \<Longrightarrow> P y \<Longrightarrow> y = x"
proof -
  from assms have f: "filter P rows = [x]" by (simp add: get_object_or_404_Inr)
  then have s: "set (filter P rows) = {x}" by simp
  from s show "x \<in> set rows" and "P x" by auto
  fix y assume "y \<in> set rows" "P y"
  then have "y \<in> set (filter P rows)" by simp
  with s show "y = x" by simp
qed

lemma viewer_is_profile_user:
  assumes found: "get_object_or_404 (users st) (\<lambda>u. username u = uname) = Inr u"
    and ids: "distinct (map user_id (users st))"
    and route: "uname \<noteq> []"
    and viewer: "\<forall>v. user req = Some v \<longrightarrow> v \<in> set (users st)"
  shows "request_username req = uname \<longleftrightarrow> is_user req (user_id u)"
proof (cases "user req")
  case None
  with route show ?thesis by (simp add: request_username_def is_user_def)
next
  case (Some v)
  with viewer have v: "v \<in> set (users st)" by simp
  note u = get_object_or_404_unique [OF found]
  from ids have i: "inj_on user_id (set (users st))" by (simp add: distinct_map)
  have "username v = uname \<longleftrightarrow> user_id v = user_id u"
  proof
    assume "username v = uname"
    with v have "v = u" by (intro u(3))
    then show "user_id v = user_id u" by simp
  next
    assume "user_id v = user_id u"
    with i v u(1) have "v = u" by (simp add: inj_on_def)
    with u(2) show "username v = uname" by simp
  qed
  with Some show ?thesis by (simp add: request_username_def is_user_def)
qed

text \<open>
  Claim C3. The profile listing of the user named in the URL renders a page of a listing
  that is in descending order of the publish timestamps and holds, when the viewer is that
  user, all posts of the user, and otherwise (another user, or nobody) exactly the posts of
  the user that are published, in a published category and not dated after the current
  time. The page is the window of ten posts of that listing at the served page number,
  which is the number that the page parameter asks for when it is a page of the listing,
  the first page when it is no integer, and the last page otherwise. The handler compares
  user names; in a store where primary keys are unique, with a nonempty name in the URL
  and a viewer who is a row of the store, this is the comparison of the users.
\<close>

theorem profile_view_posts:
  assumes found: "get_object_or_404 (users st) (\<lambda>u. username u = uname) = Inr u"
    and ids: "distinct (map user_id (users st))"
    and route: "uname \<noteq> []"
    and viewer: "\<forall>v. user req = Some v \<longrightarrow> v \<in> set (users st)"
  shows "\<exists>listing n.
      profile_view int_str st t req uname
        = Inr (Render ''blog/profile.html''
                 (ProfileContext u
                    \<lparr>object_list = drop (nat ((n - 1) * 10)) (take (nat (n * 10)) listing),
                     number = n, paginator = Paginator listing LIMIT_POSTS\<rparr>))
      \<and> n = served_number int_str (Paginator listing LIMIT_POSTS) (query_get (GET req) ''page'')
      \<and> 1 \<le> n \<and> n \<le> num_pages (Paginator listing LIMIT_POSTS)
      \<and> sorted_wrt (\<lambda>p q. pub_date q \<le> pub_date p) listing
      \<and> mset listing =
          (if is_user req (user_id u)
           then mset (filter (\<lambda>p. author p = user_id u) (posts st))
           else mset (filter (\<lambda>p. author p = user_id u \<and> is_published p
                                   \<and> category__is_published st p \<and> pub_date p \<le> t) (posts st)))"
proof -
  let ?xs = "profile_posts st t req uname u"
  let ?v = "query_get (GET req) ''page''"
  let ?n = "served_number int_str (Paginator ?xs LIMIT_POSTS) ?v"
  note g = get_page_Paginator [of int_str ?xs ?v]
  have r: "profile_view int_str st t req uname
        = Inr (Render ''blog/profile.html''
                 (ProfileContext u
                    \<lparr>object_list = drop (nat ((?n - 1) * 10)) (take (nat (?n * 10)) ?xs),
                     number = ?n, paginator = Paginator ?xs LIMIT_POSTS\<rparr>))"
    by (simp add: profile_view_def Let_def found g(1))
  have s: "sorted_wrt (\<lambda>p q. pub_date q \<le> pub_date p) ?xs"
    by (simp add: profile_posts_def Let_def sorted_order_by_pub_date_desc)
  note eq = viewer_is_profile_user [OF found ids route viewer]
  have m: "mset ?xs =
          (if is_user req (user_id u)
           then mset (filter (\<lambda>p. author p = user_id u) (posts st))
           else mset (filter (\<lambda>p. author p = user_id u \<and> is_published p
                                   \<and> category__is_published st p \<and> pub_date p \<le> t) (posts st)))"
    unfolding eq [symmetric]
    by (simp add: profile_posts_def Let_def conj_commute conj_left_commute cong: conj_cong)
  from r g(2,3) s m show ?thesis
    by (intro exI [of _ ?xs] exI [of _ ?n] conjI refl)
qed

text \<open>The profile of the first user in the example store at time 150, for the first user,
  for the second user and for nobody: three posts, and the one public post.\<close>

theorem profile_view_posts_witness:
  "profile_view ex_page_numbers ex_store 150 (ex_request (Some ex_alice) ''GET'' Map.empty) ''alice''
     = Inr (Render ''blog/profile.html''
              (ProfileContext ex_alice
                 \<lparr>object_list = [ex_post 2 1000 True 1 1, ex_post 1 100 True 1 1,
                                 ex_post 3 50 False 1 1],
                  number = 1,
                  paginator = Paginator [ex_post 2 1000 True 1 1, ex_post 1 100 True 1 1,
                                         ex_post 3 50 False 1 1] LIMIT_POSTS\<rparr>))
   \<and> profile_view ex_page_numbers ex_store 150 (ex_request (Some ex_bob) ''GET'' Map.empty) ''alice''
     = Inr (Render ''blog/profile.html''
              (ProfileContext ex_alice
                 \<lparr>object_list = [ex_post 1 100 True 1 1], number = 1,
                  paginator = Paginator [ex_post 1 100 True 1 1] LIMIT_POSTS\<rparr>))
   \<and> profile_view ex_page_numbers ex_store 150 (ex_request None ''GET'' Map.empty) ''alice''
     = Inr (Render ''blog/profile.html''
              (ProfileContext ex_alice
                 \<lparr>object_list = [ex_post 1 100 True 1 1], number = 1,
                  paginator = Paginator [ex_post 1 100 True 1 1] LIMIT_POSTS\<rparr>))"
  (is "?A \<and> ?B \<and> ?C")
proof -
  have f: "get_object_or_404 (users ex_store) (\<lambda>u. username u = ''alice'') = Inr ex_alice"
    by (simp add: get_object_or_404_def ex_defs)
  have i: "distinct (map user_id (users ex_store))"
    and r: "''alice'' \<noteq> []"
    by (simp_all add: ex_defs)
  have va: "\<forall>v. user (ex_request (Some ex_alice) ''GET'' Map.empty) = Some v
             \<longrightarrow> v \<in> set (users ex_store)"
    and vb: "\<forall>v. user (ex_request (Some ex_bob) ''GET'' Map.empty) = Some v
             \<longrightarrow> v \<in> set (users ex_store)"
    and vn: "\<forall>v. user (ex_request None ''GET'' Map.empty) = Some v
             \<longrightarrow> v \<in> set (users ex_store)"
    by (simp_all add: ex_request_def ex_store_def)
  let ?ra = "ex_request (Some ex_alice) ''GET'' Map.empty"
  let ?rb = "ex_request (Some ex_bob) ''GET'' Map.empty"
  let ?rn = "ex_request None ''GET'' Map.empty"
  have ca: "result_page (profile_view ex_page_numbers ex_store 150 ?ra ''alice'')
     = Some \<lparr>object_list = [ex_post 2 1000 True 1 1, ex_post 1 100 True 1 1,
                                 ex_post 3 50 False 1 1],
                  number = 1,
                  paginator = Paginator [ex_post 2 1000 True 1 1, ex_post 1 100 True 1 1,
                                         ex_post 3 50 False 1 1] LIMIT_POSTS\<rparr>"
    and cb: "result_page (profile_view ex_page_numbers ex_store 150 ?rb ''alice'')
     = Some \<lparr>object_list = [ex_post 1 100 True 1 1], number = 1,
                  paginator = Paginator [ex_post 1 100 True 1 1] LIMIT_POSTS\<rparr>"
    and cn: "result_page (profile_view ex_page_numbers ex_store 150 ?rn ''alice'')
     = Some \<lparr>object_list = [ex_post 1 100 True 1 1], number = 1,
                  paginator = Paginator [ex_post 1 100 True 1 1] LIMIT_POSTS\<rparr>"
    by (simp_all add: result_page_def eval_defs ex_defs)
  from profile_view_posts [OF f i r va, of ex_page_numbers 150] obtain la na
    where ea: "profile_view ex_page_numbers ex_store 150 ?ra ''alice''
        = Inr (Render ''blog/profile.html''
                 (ProfileContext ex_alice
                    \<lparr>object_list = drop (nat ((na - 1) * 10)) (take (nat (na * 10)) la),
                     number = na, paginator = Paginator la LIMIT_POSTS\<rparr>))"
    by blast
  from ca have vA: "na = 1" "la = [ex_post 2 1000 True 1 1, ex_post 1 100 True 1 1, ex_post 3 50 False 1 1]"
    unfolding ea by (simp_all add: result_page_def Paginator_def)
  have A: ?A unfolding ea vA by simp
  from profile_view_posts [OF f i r vb, of ex_page_numbers 150] obtain lb nb
    where eb: "profile_view ex_page_numbers ex_store 150 ?rb ''alice''
        = Inr (Render ''blog/profile.html''
                 (ProfileContext ex_alice
                    \<lparr>object_list = drop (nat ((nb - 1) * 10)) (take (nat (nb * 10)) lb),
                     number = nb, paginator = Paginator lb LIMIT_POSTS\<rparr>))"
    by blast
  from cb have vB: "nb = 1" "lb = [ex_post 1 100 True 1 1]"
    unfolding eb by (simp_all add: result_page_def Paginator_def)
  have B: ?B unfolding eb vB by simp
  from profile_view_posts [OF f i r vn, of ex_page_numbers 150] obtain ln nn
    where en: "profile_view ex_page_numbers ex_store 150 ?rn ''alice''
        = Inr (Render ''blog/profile.html''
                 (ProfileContext ex_alice
                    \<lparr>object_list = drop (nat ((nn - 1) * 10)) (take (nat (nn * 10)) ln),
                     number = nn, paginator = Paginator ln LIMIT_POSTS\<rparr>))"
    by blast
  from cn have vC: "nn = 1" "ln = [ex_post 1 100 True 1 1]"
    unfolding en by (simp_all add: result_page_def Paginator_def)
  have C: ?C unfolding en vC by simp
  from A B C show ?thesis by (simp only: simp_thms)
qed

section \<open>Page numbers\<close>

text \<open>
  Claim C9. Whatever the request holds as its \<^verbatim>\<open>page\<close> parameter (nothing, a text that is
  no number, a negative or a too large number), the index listing renders a valid page of
  at most ten posts, and so do the category listing and the profile listing when the
  category or the user of the URL is found. All three use \<open>LIMIT_POSTS\<close>, which is ten.
\<close>

theorem listing_pages_valid:
  "(\<exists>pg. index int_str st t req = Inr (Render ''blog/index.html'' (IndexContext pg)) \<and> page_ok pg)
   \<and> (\<forall>c. get_object_or_404 (categories st) (\<lambda>c. slug c = sl \<and> category_is_published c) = Inr c
          \<longrightarrow> (\<exists>pg. category_posts int_str st t req sl
                       = Inr (Render ''blog/category.html'' (CategoryContext c pg)) \<and> page_ok pg))
   \<and> (\<forall>u. get_object_or_404 (users st) (\<lambda>u. username u = uname) = Inr u
          \<longrightarrow> (\<exists>pg. profile_view int_str st t req uname
                       = Inr (Render ''blog/profile.html'' (ProfileContext u pg)) \<and> page_ok pg))"
proof -
  have ok: "\<exists>pg. get_page int_str (Paginator xs LIMIT_POSTS) (query_get (GET req) ''page'') = Inr pg
              \<and> page_ok pg" for xs :: "Post list"
    using get_page_Paginator [of int_str xs "query_get (GET req) ''page''"]
    by (simp add: page_ok_def Paginator_def LIMIT_POSTS_def)
  show ?thesis
  proof (intro conjI allI impI)
    from ok [of "index_posts st t"] obtain pg
      where "get_page int_str (Paginator (index_posts st t) LIMIT_POSTS)
               (query_get (GET req) ''page'') = Inr pg" "page_ok pg" by blast
    then show "\<exists>pg. index int_str st t req
                 = Inr (Render ''blog/index.html'' (IndexContext pg)) \<and> page_ok pg"
      by (intro exI [of _ pg]) (simp add: index_def Let_def)
  next
    fix c
    assume c: "get_object_or_404 (categories st)
                 (\<lambda>c. slug c = sl \<and> category_is_published c) = Inr c"
    from ok [of "category_post_list st t c"] obtain pg
      where "get_page int_str (Paginator (category_post_list st t c) LIMIT_POSTS)
               (query_get (GET req) ''page'') = Inr pg" "page_ok pg" by blast
    then show "\<exists>pg. category_posts int_str st t req sl
                = Inr (Render ''blog/category.html'' (CategoryContext c pg)) \<and> page_ok pg"
      by (intro exI [of _ pg]) (simp add: category_posts_def Let_def c)
  next
    fix u
    assume u: "get_object_or_404 (users st) (\<lambda>u. username u = uname) = Inr u"
    from ok [of "profile_posts st t req uname u"] obtain pg
      where "get_page int_str (Paginator (profile_posts st t req uname u) LIMIT_POSTS)
               (query_get (GET req) ''page'') = Inr pg" "page_ok pg" by blast
    then show "\<exists>pg. profile_view int_str st t req uname
                = Inr (Render ''blog/profile.html'' (ProfileContext u pg)) \<and> page_ok pg"
      by (intro exI [of _ pg]) (simp add: profile_view_def Let_def u)
  qed
qed

text \<open>Twelve posts, and the page values \<^verbatim>\<open>abc\<close>, \<^verbatim>\<open>-3\<close> and \<^verbatim>\<open>999\<close>: the first page with ten
  posts, and twice the last page with two.\<close>

theorem listing_pages_valid_witness:
  "(\<exists>pg. index ex_page_numbers ex_many_store 150
            (ex_request None ''GET'' [''page'' \<mapsto> str_of ''abc''])
            = Inr (Render ''blog/index.html'' (IndexContext pg))
         \<and> page_ok pg \<and> number pg = 1
         \<and> map post_id (object_list pg) = [12, 11, 10, 9, 8, 7, 6, 5, 4, 3])
   \<and> (\<exists>pg. category_posts ex_page_numbers ex_many_store 150
              (ex_request None ''GET'' [''page'' \<mapsto> str_of ''-3'']) ''news''
            = Inr (Render ''blog/category.html'' (CategoryContext ex_news pg))
         \<and> page_ok pg \<and> number pg = 2 \<and> map post_id (object_list pg) = [2, 1])
   \<and> (\<exists>pg. profile_view ex_page_numbers ex_many_store 150
              (ex_request None ''GET'' [''page'' \<mapsto> str_of ''999'']) ''alice''
            = Inr (Render ''blog/profile.html'' (ProfileContext ex_alice pg))
         \<and> page_ok pg \<and> number pg = 2 \<and> map post_id (object_list pg) = [2, 1])"
  (is "?A \<and> ?B \<and> ?C")
proof -
  let ?r1 = "ex_request None ''GET'' [''page'' \<mapsto> str_of ''abc'']"
  let ?r2 = "ex_request None ''GET'' [''page'' \<mapsto> str_of ''-3'']"
  let ?r3 = "ex_request None ''GET'' [''page'' \<mapsto> str_of ''999'']"
  let ?f = "map_option (\<lambda>pg. (number pg, map post_id (object_list pg)))"
  have c: "get_object_or_404 (categories ex_many_store)
             (\<lambda>c. slug c = ''news'' \<and> category_is_published c) = Inr ex_news"
    by (simp add: get_object_or_404_def ex_defs)
  have u: "get_object_or_404 (users ex_many_store) (\<lambda>u. username u = ''alice'') = Inr ex_alice"
    by (simp add: get_object_or_404_def ex_defs)
  have e1: "?f (result_page (index ex_page_numbers ex_many_store 150 ?r1))
              = Some (1, [12, 11, 10, 9, 8, 7, 6, 5, 4, 3])"
    by (simp add: eval_defs ex_defs result_page_def)
  have e2: "?f (result_page (category_posts ex_page_numbers ex_many_store 150 ?r2 ''news''))
              = Some (2, [2, 1])"
    by (simp add: eval_defs ex_defs result_page_def)
  have e3: "?f (result_page (profile_view ex_page_numbers ex_many_store 150 ?r3 ''alice''))
              = Some (2, [2, 1])"
    by (simp add: eval_defs ex_defs result_page_def)
  from listing_pages_valid [of ex_page_numbers ex_many_store 150 ?r1 "''news''" "''alice''"]
  obtain pg1
    where p1: "index ex_page_numbers ex_many_store 150 ?r1
                 = Inr (Render ''blog/index.html'' (IndexContext pg1))"
      "page_ok pg1" by blast
  from listing_pages_valid [of ex_page_numbers ex_many_store 150 ?r2 "''news''" "''alice''"] c
  obtain pg2
    where p2: "category_posts ex_page_numbers ex_many_store 150 ?r2 ''news''
                 = Inr (Render ''blog/category.html'' (CategoryContext ex_news pg2))"
      "page_ok pg2" by blast
  from listing_pages_valid [of ex_page_numbers ex_many_store 150 ?r3 "''news''" "''alice''"] u
  obtain pg3
    where p3: "profile_view ex_page_numbers ex_many_store 150 ?r3 ''alice''
                 = Inr (Render ''blog/profile.html'' (ProfileContext ex_alice pg3))"
      "page_ok pg3" by blast
  from e1 have "number pg1 = 1 \<and> map post_id (object_list pg1) = [12, 11, 10, 9, 8, 7, 6, 5, 4, 3]"
    unfolding p1 by (simp add: result_page_def)
  with p1 have A: ?A by (intro exI [of _ pg1]) simp
  from e2 have "number pg2 = 2 \<and> map post_id (object_list pg2) = [2, 1]"
    unfolding p2 by (simp add: result_page_def)
  with p2 have B: ?B by (intro exI [of _ pg2]) simp
  from e3 have "number pg3 = 2 \<and> map post_id (object_list pg3) = [2, 1]"
    unfolding p3 by (simp add: result_page_def)
  with p3 have C: ?C by (intro exI [of _ pg3]) simp
  from A B C show ?thesis by (simp only: simp_thms)
qed

section \<open>Dispatch by method\<close>

lemma lower_GET: "lower ''GET'' = ''get''"
  by (simp add: lower_def lower_char_def)

lemma lower_POST: "lower ''POST'' = ''post''"
  by (simp add: lower_def lower_char_def)

lemma lower_PUT: "lower ''PUT'' = ''put''"
  by (simp add: lower_def lower_char_def)

lemma View_dispatch_GET:
  "http_method req = ''GET'' \<Longrightarrow> map_of hs ''get'' = Some h \<Longrightarrow> View_dispatch hs na req = h"
  by (simp add: View_dispatch_def lower_GET http_method_names_def)

lemma View_dispatch_POST:
  "http_method req = ''POST'' \<Longrightarrow> map_of hs ''post'' = Some h \<Longrightarrow> View_dispatch hs na req = h"
  by (simp add: View_dispatch_def lower_POST http_method_names_def)

lemma View_dispatch_PUT:
  "http_method req = ''PUT'' \<Longrightarrow> map_of hs ''put'' = Some h \<Longrightarrow> View_dispatch hs na req = h"
  by (simp add: View_dispatch_def lower_PUT http_method_names_def)

lemma View_dispatch_cases:
  "View_dispatch hs na req = na \<or> View_dispatch hs na req \<in> snd ` set hs"
  by (auto simp: View_dispatch_def split: option.splits dest!: map_of_SomeD
      intro: rev_image_eqI)

section \<open>Post detail\<close>

text \<open>
  Claim C1. For a viewer who is not the author, the detail handler is claimed to apply the
  whole visibility predicate and to answer not found when one part fails, also for a
  published post dated in the future. \<open>PostDetailView_get_object\<close> reads the published flags
  of the post and of its category and never the publish timestamp: in the example store the
  second user, who is not the author, is served the published post of the first user that
  is dated 1000, at any time, also at time 150, where the index listing leaves it out.
\<close>

theorem post_detail_serves_future_post:
  "PostDetailView ex_store (ex_request (Some ex_bob) ''GET'' Map.empty) 2
     = Inr (Render ''blog/detail.html''
              (PostDetailContext (ex_post 2 1000 True 1 1) (Form False []) []))
   \<and> \<not> is_user (ex_request (Some ex_bob) ''GET'' Map.empty) (author (ex_post 2 1000 True 1 1))
   \<and> is_published (ex_post 2 1000 True 1 1)
   \<and> category__is_published ex_store (ex_post 2 1000 True 1 1)
   \<and> 150 < pub_date (ex_post 2 1000 True 1 1)
   \<and> ex_post 2 1000 True 1 1 \<notin> set (index_posts ex_store 150)"
proof -
  let ?req = "ex_request (Some ex_bob) ''GET'' Map.empty"
  have m: "http_method ?req = ''GET''" by (simp add: ex_request_def)
  have "PostDetailView ex_store ?req 2 = PostDetailView_get ex_store ?req 2"
    unfolding PostDetailView_def by (rule View_dispatch_GET [OF m]) simp
  then show ?thesis
    by (simp add: PostDetailView_get_def PostDetailView_get_object_def get_object_or_404_def
        is_user_def category__is_published_def index_posts_def order_by_pub_date_desc_def
        ex_defs)
qed

section \<open>Creating a post\<close>

text \<open>
  Claim C4. For an authenticated viewer the create handler answers with a redirect exactly
  when the method is \<^verbatim>\<open>POST\<close> or \<^verbatim>\<open>PUT\<close> and the form is valid. The redirect then goes to the
  profile of the viewer, and the store has one more post, with the key that the database
  assigns, the cleaned fields of the form and the viewer as its author, for every form and
  every submitted dictionary, also one that holds a value under the name \<^verbatim>\<open>author\<close>.
\<close>

theorem post_create_author_is_viewer:
  assumes "user req = Some v"
  shows "PostCreateView post_form new_pk st req = (Inr (Redirect r), st')
         \<longleftrightarrow> (http_method req = ''POST'' \<or> http_method req = ''PUT'')
             \<and> (\<exists>cd. post_form st (POST req) = Inr cd
                   \<and> r = Profile (username v)
                   \<and> st' = st\<lparr>posts := posts st @
                              [\<lparr>post_id = new_pk,
                                title = cleaned_title cd, post_text = cleaned_text cd,
                                pub_date = cleaned_pub_date cd,
                                is_published = cleaned_is_published cd,
                                author = user_id v, category = cleaned_category cd\<rparr>]\<rparr>)"
proof (cases "http_method req = ''POST'' \<or> http_method req = ''PUT''")
  case True
  let ?hs = "[(''get'', PostCreateView_get st),
             (''post'', PostCreateView_post post_form new_pk st req v),
             (''put'', PostCreateView_post post_form new_pk st req v),
             (''head'', PostCreateView_get st),
             (''options'',
              (Inr (OptionsResponse [''GET'', ''POST'', ''PUT'', ''HEAD'', ''OPTIONS'']), st))]"
  from True have "View_dispatch ?hs
      (Inr (HttpResponseNotAllowed [''GET'', ''POST'', ''PUT'', ''HEAD'', ''OPTIONS'']), st) req
      = PostCreateView_post post_form new_pk st req v"
    by (auto intro: View_dispatch_POST View_dispatch_PUT)
  with assms have "PostCreateView post_form new_pk st req = PostCreateView_post post_form new_pk st req v"
    by (simp add: PostCreateView_def)
  with True assms show ?thesis
    by (auto simp: PostCreateView_post_def PostCreateView_form_valid_def Post_create_def
        request_username_def Let_def split: sum.splits)
next
  case False
  let ?hs = "[(''get'', PostCreateView_get st),
             (''post'', PostCreateView_post post_form new_pk st req v),
             (''put'', PostCreateView_post post_form new_pk st req v),
             (''head'', PostCreateView_get st),
             (''options'',
              (Inr (OptionsResponse [''GET'', ''POST'', ''PUT'', ''HEAD'', ''OPTIONS'']), st))]"
  let ?na = "(Inr (HttpResponseNotAllowed [''GET'', ''POST'', ''PUT'', ''HEAD'', ''OPTIONS'']), st)"
  from False have p: "PostCreateView_post post_form new_pk st req v
      = (Inr (Render ''blog/create.html'' (PostFormContext (Form False []))), st)"
    by (simp add: PostCreateView_post_def)
  from View_dispatch_cases [of ?hs ?na req]
  have "fst (View_dispatch ?hs ?na req) \<noteq> Inr (Redirect r)"
    by (auto simp: p PostCreateView_get_def)
  with assms have "PostCreateView post_form new_pk st req \<noteq> (Inr (Redirect r), st')"
    by (auto simp: PostCreateView_def)
  with False show ?thesis by simp
qed

text \<open>The first user submits a post that names the second user as author.\<close>

theorem post_create_author_is_viewer_witness:
  "POST ex_create_request ''author'' = Some (str_of ''2'')
   \<and> PostCreateView ex_post_form 5 ex_store ex_create_request
     = (Inr (Redirect (Profile ''alice'')),
        ex_store\<lparr>posts := posts ex_store @
           [\<lparr>post_id = 5, title = str_of ''New post'', post_text = str_of ''Body'',
             pub_date = 140, is_published = True, author = 1, category = 1\<rparr>]\<rparr>)"
proof -
  have u: "user ex_create_request = Some ex_alice"
    and a: "POST ex_create_request ''author'' = Some (str_of ''2'')"
    and m: "http_method ex_create_request = ''POST''"
    by (simp_all add: ex_create_request_def ex_request_def)
  have f: "ex_post_form ex_store (POST ex_create_request)
             = Inr \<lparr>cleaned_title = str_of ''New post'', cleaned_text = str_of ''Body'',
                    cleaned_pub_date = 140, cleaned_is_published = True, cleaned_category = 1\<rparr>"
    by (simp add: ex_post_form_def ex_create_request_def ex_request_def)
  have i: "user_id ex_alice = 1" "username ex_alice = ''alice''"
    by (simp_all add: ex_alice_def)
  from post_create_author_is_viewer [OF u, of ex_post_form 5 ex_store "Profile ''alice''"
      "ex_store\<lparr>posts := posts ex_store @
           [\<lparr>post_id = 5, title = str_of ''New post'', post_text = str_of ''Body'',
             pub_date = 140, is_published = True, author = 1, category = 1\<rparr>]\<rparr>"]
  have "PostCreateView ex_post_form 5 ex_store ex_create_request
     = (Inr (Redirect (Profile ''alice'')),
        ex_store\<lparr>posts := posts ex_store @
           [\<lparr>post_id = 5, title = str_of ''New post'', post_text = str_of ''Body'',
             pub_date = 140, is_published = True, author = 1, category = 1\<rparr>]\<rparr>)"
    by (simp add: m f i)
  with a show ?thesis by simp
qed

section \<open>Updating a post\<close>

text \<open>
  Claim C5. When an authenticated viewer who is not the author of the post asks for the
  update of the post, the handler redirects to the detail page of the post and the store is
  as before; the form handling of the framework is not reached.
\<close>

theorem post_update_non_author_redirected:
  assumes "get_object_or_404 (posts st) (\<lambda>p. post_id p = pid) = Inr obj"
    and "user req = Some v"
    and "user_id v \<noteq> author obj"
  shows "PostUpdateView_dispatch super_dispatch st req pid = (Inr (Redirect (PostDetail pid)), st)"
  using assms by (simp add: PostUpdateView_dispatch_def is_user_def)

text \<open>The second user submits a new title for a post of the first user; the form handling
  given here would empty the table of posts if it were reached.\<close>

theorem post_update_non_author_redirected_witness:
  "PostUpdateView_dispatch (\<lambda>st req pid. (Inr (Redirect Login), st\<lparr>posts := []\<rparr>))
     ex_store (ex_request (Some ex_bob) ''POST'' [''title'' \<mapsto> str_of ''Mine now'']) 1
   = (Inr (Redirect (PostDetail 1)), ex_store)"
proof -
  have "get_object_or_404 (posts ex_store) (\<lambda>p. post_id p = 1) = Inr (ex_post 1 100 True 1 1)"
    by (simp add: get_object_or_404_def ex_defs)
  moreover have "user (ex_request (Some ex_bob) ''POST'' [''title'' \<mapsto> str_of ''Mine now''])
                   = Some ex_bob"
    by (simp add: ex_request_def)
  moreover have "user_id ex_bob \<noteq> author (ex_post 1 100 True 1 1)"
    by (simp add: ex_defs)
  ultimately show ?thesis by (rule post_update_non_author_redirected)
qed

section \<open>Deleting a post\<close>

lemma filter_unique_key:
  "distinct (map f xs) \<Longrightarrow> x \<in> set xs \<Longrightarrow>
   filter (\<lambda>y. f y = f x \<and> Q y) xs = (if Q x then [x] else [])"
proof (induction xs)
  case Nil
  then show ?case by simp
next
  case (Cons y ys)
  show ?case
  proof (cases "y = x")
    case True
    with Cons.prems have "\<forall>z \<in> set ys. f z \<noteq> f x" by (auto simp: image_iff)
    then have "filter (\<lambda>y. f y = f x \<and> Q y) ys = []" by (auto simp: filter_empty_conv)
    with True show ?thesis by simp
  next
    case False
    with Cons.prems have "x \<in> set ys" "f y \<noteq> f x" "distinct (map f ys)" by auto
    with Cons.IH show ?thesis by simp
  qed
qed

lemma filter_other_keys:
  "distinct (map f xs) \<Longrightarrow> x \<in> set xs \<Longrightarrow> filter (\<lambda>y. f y \<noteq> f x) xs = removeAll x xs"
proof -
  assume "distinct (map f xs)" and "x \<in> set xs"
  then have "\<forall>y \<in> set xs. f y \<noteq> f x \<longleftrightarrow> x \<noteq> y"
    by (auto simp: distinct_map inj_on_def)
  then have "filter (\<lambda>y. f y \<noteq> f x) xs = filter (\<lambda>y. x \<noteq> y) xs"
    by (intro filter_cong) auto
  then show ?thesis by (simp add: removeAll_filter_not_eq)
qed

text \<open>
  Claim C6. The lookup of the delete handler is by primary key and author together. For an
  authenticated viewer and a post of the store with the key of the URL: a viewer who is not
  the author gets not found and the store is as before; the author gets the confirmation
  page for a request that is not a POST, the store as before; and for a POST the post is
  deleted, with its comments (every other row of the store stays), and the answer is a
  redirect to the profile of the viewer.
\<close>

theorem delete_post_owner_scoped:
  assumes "user req = Some v"
    and "distinct (map post_id (posts st))"
    and "p \<in> set (posts st)"
    and "post_id p = pid"
  shows "delete_post st req pid =
           (if author p \<noteq> user_id v then (Inl Http404, st)
            else if http_method req \<noteq> ''POST''
            then (Inr (Render ''blog/create.html'' (PostDeleteContext p True)), st)
            else (Inr (Redirect (Profile (username v))),
                  st\<lparr>posts := removeAll p (posts st),
                     comments := filter (\<lambda>c. comment_post c \<noteq> pid) (comments st)\<rparr>))"
proof -
  have "filter (\<lambda>q. post_id q = pid \<and> is_user req (author q)) (posts st)
          = (if is_user req (author p) then [p] else [])"
    using filter_unique_key [of post_id "posts st" p "\<lambda>q. is_user req (author q)"] assms
    by simp
  moreover have "is_user req (author p) \<longleftrightarrow> author p = user_id v"
    using assms(1) by (auto simp: is_user_def)
  moreover have "Post_delete st p =
      st\<lparr>posts := removeAll p (posts st),
         comments := filter (\<lambda>c. comment_post c \<noteq> pid) (comments st)\<rparr>"
    using filter_other_keys [OF assms(2,3)] assms(4) by (simp add: Post_delete_def)
  ultimately show ?thesis
    using assms(1)
    by (simp add: delete_post_def get_object_or_404_def is_authenticated_def
        request_username_def)
qed

text \<open>The first post of the example store: a POST of the second user, then a GET and a POST
  of the first user, who is its author.\<close>

theorem delete_post_owner_scoped_witness:
  "delete_post ex_store (ex_request (Some ex_bob) ''POST'' Map.empty) 1 = (Inl Http404, ex_store)
   \<and> delete_post ex_store (ex_request (Some ex_alice) ''GET'' Map.empty) 1
       = (Inr (Render ''blog/create.html'' (PostDeleteContext (ex_post 1 100 True 1 1) True)),
          ex_store)
   \<and> delete_post ex_store (ex_request (Some ex_alice) ''POST'' Map.empty) 1
       = (Inr (Redirect (Profile ''alice'')),
          ex_store\<lparr>posts := [ex_post 2 1000 True 1 1, ex_post 3 50 False 1 1,
                               ex_post 4 120 True 2 1],
                     comments := []\<rparr>)"
  (is "?A \<and> ?B \<and> ?C")
proof -
  let ?p = "ex_post 1 100 True 1 1"
  have d: "distinct (map post_id (posts ex_store))"
    and m: "?p \<in> set (posts ex_store)"
    and k: "post_id ?p = 1"
    by (simp_all add: ex_defs)
  have ub: "user (ex_request (Some ex_bob) ''POST'' Map.empty) = Some ex_bob"
    and ua: "user (ex_request (Some ex_alice) ''GET'' Map.empty) = Some ex_alice"
    and ud: "user (ex_request (Some ex_alice) ''POST'' Map.empty) = Some ex_alice"
    by (simp_all add: ex_request_def)
  from delete_post_owner_scoped [OF ub d m k] have A: ?A
    by (simp add: ex_defs)
  from delete_post_owner_scoped [OF ua d m k] have B: ?B
    by (simp add: ex_defs)
  from delete_post_owner_scoped [OF ud d m k] have C: ?C
    by (simp add: ex_defs)
  from A B C show ?thesis by (simp only: simp_thms)
qed

section \<open>Comments of other users\<close>

text \<open>
  Claim C7. When an authenticated viewer who is not the author of the comment asks to edit
  or to delete it, both handlers answer with the forbidden response (not a redirect, not
  not found), and the store is as before.
\<close>

theorem comment_non_author_forbidden:
  assumes "user req = Some v"
    and "get_object_or_404 (comments st) (\<lambda>c. comment_id c = cid) = Inr c"
    and "comment_author c \<noteq> user_id v"
  shows "edit_comment comment_form st req pid cid = (Inr (HttpResponseForbidden NoRightToEdit), st)
       \<and> delete_comment st req pid cid = (Inr (HttpResponseForbidden NoRightToDelete), st)"
  using assms
  by (auto simp: edit_comment_def delete_comment_def is_authenticated_def is_user_def)

text \<open>The first user asks to change and to delete the comment of the second user.\<close>

theorem comment_non_author_forbidden_witness:
  "edit_comment (\<lambda>data. CharField_clean (data ''text'')) ex_store
       (ex_request (Some ex_alice) ''POST'' [''text'' \<mapsto> str_of ''changed'']) 1 1
     = (Inr (HttpResponseForbidden NoRightToEdit), ex_store)
   \<and> delete_comment ex_store
       (ex_request (Some ex_alice) ''POST'' [''text'' \<mapsto> str_of ''changed'']) 1 1
     = (Inr (HttpResponseForbidden NoRightToDelete), ex_store)"
proof -
  have "user (ex_request (Some ex_alice) ''POST'' [''text'' \<mapsto> str_of ''changed''])
          = Some ex_alice"
    by (simp add: ex_request_def)
  moreover have "get_object_or_404 (comments ex_store) (\<lambda>c. comment_id c = 1) = Inr ex_comment"
    by (simp add: get_object_or_404_def ex_defs)
  moreover have "comment_author ex_comment \<noteq> user_id ex_alice"
    by (simp add: ex_defs)
  ultimately show ?thesis by (rule comment_non_author_forbidden)
qed

section \<open>The post key of a comment URL\<close>

text \<open>
  Claim C10. The comment handlers look the comment up by its own key only. For an
  authenticated viewer they answer not found exactly when no comment has the key; for the
  author of the comment a POST deletes the comment, or saves its new text when the form is
  valid, and redirects to the detail page of the post named in the URL, whatever post the
  comment belongs to.
\<close>

theorem comment_lookup_by_comment_id_only:
  assumes "user req = Some v"
  shows "(fst (edit_comment comment_form st req pid cid) = Inl Http404
            \<longleftrightarrow> (\<forall>c \<in> set (comments st). comment_id c \<noteq> cid))
       \<and> (fst (delete_comment st req pid cid) = Inl Http404
            \<longleftrightarrow> (\<forall>c \<in> set (comments st). comment_id c \<noteq> cid))
       \<and> (\<forall>c. get_object_or_404 (comments st) (\<lambda>c. comment_id c = cid) = Inr c
               \<and> comment_author c = user_id v \<and> http_method req = ''POST'' \<longrightarrow>
              delete_comment st req pid cid
                = (Inr (Redirect (PostDetail pid)),
                   st\<lparr>comments := removeAll c (comments st)\<rparr>)
            \<and> (\<forall>s. comment_form (POST req) = Inr s \<longrightarrow>
                  edit_comment comment_form st req pid cid
                    = (Inr (Redirect (PostDetail pid)),
                       st\<lparr>comments := map (\<lambda>r. if r = c then c\<lparr>comment_text := s\<rparr> else r)
                                          (comments st)\<rparr>)))"
proof (intro conjI allI impI)
  have none: "get_object_or_404 (comments st) (\<lambda>c. comment_id c = cid) = Inl Http404
                \<longleftrightarrow> (\<forall>c \<in> set (comments st). comment_id c \<noteq> cid)"
  proof -
    have "get_object_or_404 (comments st) (\<lambda>c. comment_id c = cid) = Inl Http404
            \<longleftrightarrow> filter (\<lambda>c. comment_id c = cid) (comments st) = []"
      by (simp add: get_object_or_404_def split: list.splits)
    then show ?thesis by (simp add: filter_empty_conv)
  qed
  show "fst (edit_comment comment_form st req pid cid) = Inl Http404
            \<longleftrightarrow> (\<forall>c \<in> set (comments st). comment_id c \<noteq> cid)"
    unfolding none [symmetric] using assms
    by (simp add: edit_comment_def is_authenticated_def split: sum.splits)
  show "fst (delete_comment st req pid cid) = Inl Http404
            \<longleftrightarrow> (\<forall>c \<in> set (comments st). comment_id c \<noteq> cid)"
    unfolding none [symmetric] using assms
    by (simp add: delete_comment_def is_authenticated_def split: sum.splits)
next
  fix c
  assume h: "get_object_or_404 (comments st) (\<lambda>c. comment_id c = cid) = Inr c
               \<and> comment_author c = user_id v \<and> http_method req = ''POST''"
  then have g: "get_object_or_404 (comments st) (\<lambda>c. comment_id c = cid) = Inr c" by simp
  note u = get_object_or_404_unique [OF g]
  have k: "\<forall>r \<in> set (comments st). comment_id r \<noteq> comment_id c \<longleftrightarrow> c \<noteq> r"
  proof
    fix r
    assume r: "r \<in> set (comments st)"
    show "comment_id r \<noteq> comment_id c \<longleftrightarrow> c \<noteq> r"
    proof
      assume "comment_id r \<noteq> comment_id c"
      then show "c \<noteq> r" by auto
    next
      assume n: "c \<noteq> r"
      show "comment_id r \<noteq> comment_id c"
      proof
        assume "comment_id r = comment_id c"
        with u(2) have "comment_id r = cid" by simp
        with r have "r = c" by (rule u(3))
        with n show False by simp
      qed
    qed
  qed
  have "filter (\<lambda>r. comment_id r \<noteq> comment_id c) (comments st)
          = filter (\<lambda>r. c \<noteq> r) (comments st)"
    using k by (intro filter_cong) auto
  then have d: "Comment_delete st c = st\<lparr>comments := removeAll c (comments st)\<rparr>"
    by (simp add: Comment_delete_def removeAll_filter_not_eq)
  from h assms show "delete_comment st req pid cid
                = (Inr (Redirect (PostDetail pid)),
                   st\<lparr>comments := removeAll c (comments st)\<rparr>)"
    by (simp add: delete_comment_def is_authenticated_def is_user_def d)
  fix s
  assume f: "comment_form (POST req) = Inr s"
  have "map (\<lambda>r. if comment_id r = comment_id c then c\<lparr>comment_text := s\<rparr> else r)
            (comments st)
          = map (\<lambda>r. if r = c then c\<lparr>comment_text := s\<rparr> else r) (comments st)"
    using k by (intro map_cong) auto
  then have e: "Comment_save st (c\<lparr>comment_text := s\<rparr>)
                  = st\<lparr>comments := map (\<lambda>r. if r = c then c\<lparr>comment_text := s\<rparr> else r)
                                        (comments st)\<rparr>"
    by (simp add: Comment_save_def)
  from h f assms show "edit_comment comment_form st req pid cid
                    = (Inr (Redirect (PostDetail pid)),
                       st\<lparr>comments := map (\<lambda>r. if r = c then c\<lparr>comment_text := s\<rparr> else r)
                                          (comments st)\<rparr>)"
    by (simp add: edit_comment_def is_authenticated_def is_user_def e)
qed

lemmas str_defs = CharField_clean_def strip_def is_space_def str_of_def

text \<open>The comment of the example belongs to post 1; the URL names post 4.\<close>

theorem comment_lookup_by_comment_id_only_witness:
  "comment_post ex_comment \<noteq> 4
   \<and> delete_comment ex_store
       (ex_request (Some ex_bob) ''POST'' [''text'' \<mapsto> str_of '' edited '']) 4 1
       = (Inr (Redirect (PostDetail 4)), ex_store\<lparr>comments := []\<rparr>)
   \<and> edit_comment (\<lambda>data. CharField_clean (data ''text'')) ex_store
       (ex_request (Some ex_bob) ''POST'' [''text'' \<mapsto> str_of '' edited '']) 4 1
       = (Inr (Redirect (PostDetail 4)),
          ex_store\<lparr>comments := [ex_comment\<lparr>comment_text := str_of ''edited''\<rparr>]\<rparr>)"
proof -
  let ?req = "ex_request (Some ex_bob) ''POST'' [''text'' \<mapsto> str_of '' edited '']"
  let ?form = "\<lambda>data :: string \<rightharpoonup> str. CharField_clean (data ''text'')"
  have u: "user ?req = Some ex_bob" by (simp add: ex_request_def)
  have h: "get_object_or_404 (comments ex_store) (\<lambda>c. comment_id c = 1) = Inr ex_comment
             \<and> comment_author ex_comment = user_id ex_bob \<and> http_method ?req = ''POST''"
    by (simp add: get_object_or_404_def ex_defs)
  have f: "?form (POST ?req) = Inr (str_of ''edited'')"
    by (simp add: str_defs ex_request_def)
  have n: "comment_post ex_comment \<noteq> 4" by (simp add: ex_comment_def)
  from comment_lookup_by_comment_id_only [OF u, of ?form ex_store 4 1] h f
  have "delete_comment ex_store ?req 4 1
          = (Inr (Redirect (PostDetail 4)),
             ex_store\<lparr>comments := removeAll ex_comment (comments ex_store)\<rparr>)"
    and "edit_comment ?form ex_store ?req 4 1
          = (Inr (Redirect (PostDetail 4)),
             ex_store\<lparr>comments :=
               map (\<lambda>r. if r = ex_comment then ex_comment\<lparr>comment_text := str_of ''edited''\<rparr>
                         else r) (comments ex_store)\<rparr>)"
    by blast+
  with n show ?thesis
    by (simp add: ex_store_def)
qed

section \<open>Changing the password\<close>











end
